theory Spec2Isabelle
  imports Main
begin

section \<open>Python values, exceptions and string helpers\<close>

text \<open>
  Shallow embedding of \<^verbatim>\<open>ASR6501.py\<close>, the AT-command driver of an ASR6501 LoRaWAN
  modem. A Python \<^verbatim>\<open>str\<close> or \<^verbatim>\<open>bytes\<close> value is a HOL \<open>string\<close> holding its UTF-8
  bytes; the payload handed to \<^verbatim>\<open>sendPayload\<close> alone is given by its code points, since
  the method encodes it. An attribute that may hold \<^verbatim>\<open>None\<close>, a string, an integer or a list of strings
  is a \<open>pyval\<close>. A raised exception is the \<open>Inl\<close> of a sum.
\<close>

datatype pyval = PNone | PStr string | PInt int | PList "string list"

datatype error =
    ASRReceiveTimeout
  | ASRPatternMatchFailed
  | ASRCMEError
  | ASRERRSend
  | ASRERRSent
  | ASRUnsupportedManuf
  | ASRSerialError
  | ASRInvalidDevEui
  | ASRInvalidAppEui
  | ASRInvalidAppKey
  | ASRInvalidDevAddr
  | ASRInvalidNwkSKey
  | ASRInvalidAppSKey
  | AssertionError
  | ValueError
  | TypeError
  | UnicodeDecodeError
  | UnicodeEncodeError
  | SystemExit error

text \<open>\<^verbatim>\<open>bytes.rstrip()\<close>: drops trailing space, tab, LF, VT, FF and CR.\<close>

definition is_space :: "char \<Rightarrow> bool" where
  "is_space c = (c \<in> set [CHR '' '', CHR 0x09, CHR 0x0A, CHR 0x0B, CHR 0x0C, CHR 0x0D])"

definition rstrip :: "string \<Rightarrow> string" where
  "rstrip s = rev (dropWhile is_space (rev s))"

text \<open>
  \<^verbatim>\<open>bytes.decode("utf-8")\<close>: the bytes are kept when they are well-formed UTF-8, and
  \<^verbatim>\<open>UnicodeDecodeError\<close> is raised otherwise.
\<close>

definition cont :: "nat \<Rightarrow> bool" where
  "cont b = (0x80 \<le> b \<and> b \<le> 0xBF)"

fun valid_utf8 :: "nat list \<Rightarrow> bool" where
  "valid_utf8 [] = True"
| "valid_utf8 (a # bs) =
     (if a < 0x80 then valid_utf8 bs
      else if 0xC2 \<le> a \<and> a \<le> 0xDF then
        (case bs of b # r \<Rightarrow> cont b \<and> valid_utf8 r | _ \<Rightarrow> False)
      else if 0xE0 \<le> a \<and> a \<le> 0xEF then
        (case bs of b # c # r \<Rightarrow>
            cont b \<and> cont c \<and> (if a = 0xE0 then 0xA0 \<le> b else True)
            \<and> (if a = 0xED then b \<le> 0x9F else True)
            \<and> valid_utf8 r
         | _ \<Rightarrow> False)
      else if 0xF0 \<le> a \<and> a \<le> 0xF4 then
        (case bs of b # c # d # r \<Rightarrow>
            cont b \<and> cont c \<and> cont d \<and> (if a = 0xF0 then 0x90 \<le> b else True)
            \<and> (if a = 0xF4 then b \<le> 0x8F else True)
            \<and> valid_utf8 r
         | _ \<Rightarrow> False)
      else False)"

definition decode :: "string \<Rightarrow> error + string" where
  "decode s = (if valid_utf8 (map of_char s) then Inr s else Inl UnicodeDecodeError)"

text \<open>\<^verbatim>\<open>str.split(sep, maxsplit)\<close> for a one-character separator: at most
  \<open>maxsplit\<close> cuts, so at most \<open>maxsplit + 1\<close> parts.\<close>

fun split_max :: "char \<Rightarrow> nat \<Rightarrow> string \<Rightarrow> string list" where
  "split_max sep 0 s = [s]"
| "split_max sep (Suc n) s =
     (if sep \<in> set s
      then takeWhile (\<lambda>c. c \<noteq> sep) s # split_max sep n (tl (dropWhile (\<lambda>c. c \<noteq> sep) s))
      else [s])"

text \<open>\<^verbatim>\<open>re.match("(.*)[:=](.*)", s)\<close> on one line: the first group is greedy, so the
  match, when there is one, cuts at the last colon or equals sign; \<open>group(2)\<close> is the
  text after it. A dot does not match a line feed.\<close>

definition is_sep :: "char \<Rightarrow> bool" where
  "is_sep c = (c = CHR '':'' \<or> c = CHR ''='')"

definition reply_pat_group2 :: "string \<Rightarrow> string option" where
  "reply_pat_group2 s =
     (let line = takeWhile (\<lambda>c. c \<noteq> CHR 0x0A) s in
      if list_ex is_sep line
      then Some (rev (takeWhile (\<lambda>c. \<not> is_sep c) (rev line)))
      else None)"

text \<open>\<^verbatim>\<open>int(s)\<close> on ASCII text: white space (space, tab, LF, VT, FF, CR) is dropped at
  both ends, one sign is allowed, then come decimal digits with single underscores
  between them. Anything else raises \<^verbatim>\<open>ValueError\<close>.\<close>

definition is_digit :: "char \<Rightarrow> bool" where
  "is_digit c = (48 \<le> (of_char c :: nat) \<and> (of_char c :: nat) \<le> 57)"

fun digits_ok :: "string \<Rightarrow> bool" where
  "digits_ok [] = False"
| "digits_ok [c] = is_digit c"
| "digits_ok (c # d # r) =
     (is_digit c \<and> (if d = CHR ''_'' then digits_ok r else digits_ok (d # r)))"

definition digits_val :: "string \<Rightarrow> int" where
  "digits_val s =
     foldl (\<lambda>acc c. 10 * acc + (int (of_char c) - 48)) 0 (filter (\<lambda>c. c \<noteq> CHR ''_'') s)"

definition ascii_int :: "string \<Rightarrow> error + int" where
  "ascii_int s =
     (let t = rev (dropWhile is_space (rev (dropWhile is_space s)));
          neg = (t \<noteq> [] \<and> hd t = CHR ''-'');
          body = (if t \<noteq> [] \<and> (hd t = CHR ''-'' \<or> hd t = CHR ''+'') then tl t else t)
      in if digits_ok body
         then Inr (if neg then - digits_val body else digits_val body)
         else Inl ValueError)"

text \<open>
  \<^verbatim>\<open>int(s)\<close> in general. On a text that has a character beyond ASCII the result rests
  on the interpreter's tables of Unicode digits and spaces, and on a text of more than
  640 characters it rests on the interpreter's limit on the digits of an integer.
  Neither is part of this program, so \<^verbatim>\<open>int\<close> on such texts is a parameter \<open>wide\<close> of
  the model: it gives the integer, or \<open>None\<close> where \<^verbatim>\<open>int\<close> raises \<^verbatim>\<open>ValueError\<close>. Every
  function that converts text from the channel takes this parameter.
\<close>

type_synonym wide_int = "string \<Rightarrow> int option"

definition ascii_text :: "string \<Rightarrow> bool" where
  "ascii_text s = list_all (\<lambda>c. (of_char c :: nat) < 128) s"

definition py_int :: "wide_int \<Rightarrow> string \<Rightarrow> error + int" where
  "py_int wide s =
     (if ascii_text s \<and> length s \<le> 640 then ascii_int s
      else (case wide s of None \<Rightarrow> Inl ValueError | Some i \<Rightarrow> Inr i))"

text \<open>\<^verbatim>\<open>str.encode("utf-8")\<close> of a text given by its code points: a surrogate (D800 to
  DFFF) has no encoding and raises \<^verbatim>\<open>UnicodeEncodeError\<close>. A \<^verbatim>\<open>str\<close> has no code point
  above 10FFFF.\<close>

definition encode_cp :: "nat \<Rightarrow> error + string" where
  "encode_cp cp =
     (if cp < 0x80 then Inr [char_of cp]
      else if cp < 0x800 then Inr [char_of (0xC0 + cp div 64), char_of (0x80 + cp mod 64)]
      else if 0xD800 \<le> cp \<and> cp \<le> 0xDFFF then Inl UnicodeEncodeError
      else if cp < 0x10000 then
        Inr [char_of (0xE0 + cp div 4096), char_of (0x80 + cp div 64 mod 64),
             char_of (0x80 + cp mod 64)]
      else
        Inr [char_of (0xF0 + cp div 262144), char_of (0x80 + cp div 4096 mod 64),
             char_of (0x80 + cp div 64 mod 64), char_of (0x80 + cp mod 64)])"

fun encode_utf8 :: "nat list \<Rightarrow> error + string" where
  "encode_utf8 [] = Inr []"
| "encode_utf8 (cp # r) =
     (case encode_cp cp of
        Inl e \<Rightarrow> Inl e
      | Inr b \<Rightarrow> (case encode_utf8 r of Inl e \<Rightarrow> Inl e | Inr bs \<Rightarrow> Inr (b @ bs)))"

text \<open>The decimal text of an integer, as an f-string renders it.\<close>

fun str_nat :: "nat \<Rightarrow> string" where
  "str_nat n =
     (if n < 10 then [char_of (48 + n)] else str_nat (n div 10) @ [char_of (48 + n mod 10)])"

definition str_int :: "int \<Rightarrow> string" where
  "str_int i = (if i < 0 then CHR ''-'' # str_nat (nat (- i)) else str_nat (nat i))"

text \<open>\<^verbatim>\<open>bytes.hex()\<close>: two lower-case hexadecimal digits for each byte.\<close>

definition hex_digit :: "nat \<Rightarrow> char" where
  "hex_digit n = (if n < 10 then char_of (48 + n) else char_of (87 + n))"

definition hex :: "string \<Rightarrow> string" where
  "hex s = concat (map (\<lambda>c. [hex_digit (of_char c div 16), hex_digit (of_char c mod 16)]) s)"

section \<open>The driver instance, its serial channel and the clock\<close>

text \<open>
  One record holds the attributes of the \<^verbatim>\<open>asr6501\<close> instance together with the world
  it talks to. The serial channel is line based, a line holding no line feed:
  \<open>inbuf\<close> are the lines already buffered, \<open>feed\<close> the lines the modem will still emit, each with the clock tick at
  which it reaches the buffer, and \<open>written\<close> collects every \<^verbatim>\<open>serial.write\<close>. The
  clock counts ticks, \<open>hz\<close> of them to a second, and every \<^verbatim>\<open>time.time()\<close> takes one
  tick. A registered downlink callback records its arguments in \<open>delivered\<close>.
  \<^verbatim>\<open>_clearLastError\<close> assigns the attributes \<^verbatim>\<open>LastErrorType\<close> and \<^verbatim>\<open>LastErrorNum\<close>,
  which are not the attributes \<^verbatim>\<open>lastErrorType\<close> and \<^verbatim>\<open>lastErrorNum\<close> that the rest of
  the class uses, so the record has both pairs.
\<close>

record asr6501 =
  clock :: nat
  hz :: nat
  feed :: "(nat \<times> string) list"
  inbuf :: "string list"
  written :: "string list"
  delivered :: "(string \<times> string \<times> string \<times> string) list"
  downlinkCallback :: "nat option"
  downlinkRecvd :: bool
  lastErrorNum :: pyval
  lastErrorType :: pyval
  lastATCmd :: pyval
  LastErrorType :: pyval
  LastErrorNum :: pyval
  joined :: bool
  joinMode :: pyval

definition time_time :: "asr6501 \<Rightarrow> nat \<times> asr6501" where
  "time_time s = (clock s, s\<lparr>clock := Suc (clock s)\<rparr>)"

definition due :: "asr6501 \<Rightarrow> nat \<times> string \<Rightarrow> bool" where
  "due s e = (fst e \<le> clock s)"

definition arrive :: "asr6501 \<Rightarrow> asr6501" where
  "arrive s = s\<lparr>inbuf := inbuf s @ map snd (filter (due s) (feed s)),
               feed := filter (\<lambda>e. \<not> due s e) (feed s)\<rparr>"

text \<open>\<^verbatim>\<open>serial.in_waiting\<close>: the number of buffered bytes, a line feed ending each line.\<close>

definition in_waiting :: "asr6501 \<Rightarrow> nat \<times> asr6501" where
  "in_waiting s = (let s' = arrive s in (sum_list (map (\<lambda>l. Suc (length l)) (inbuf s')), s'))"

definition readline :: "asr6501 \<Rightarrow> string \<times> asr6501" where
  "readline s =
     (case inbuf s of [] \<Rightarrow> ([], s) | l # ls \<Rightarrow> (l @ [CHR 0x0A], s\<lparr>inbuf := ls\<rparr>))"

definition reset_input_buffer :: "asr6501 \<Rightarrow> asr6501" where
  "reset_input_buffer s = (arrive s)\<lparr>inbuf := []\<rparr>"

definition serial_write :: "string \<Rightarrow> asr6501 \<Rightarrow> asr6501" where
  "serial_write b s = s\<lparr>written := written s @ [b]\<rparr>"

definition clearLastError :: "asr6501 \<Rightarrow> asr6501" where
  "clearLastError s = s\<lparr>LastErrorType := PNone, LastErrorNum := PNone\<rparr>"

section \<open>The transaction engine\<close>

text \<open>The \<^verbatim>\<open>+CME ERROR:\<close> branch shared by \<^verbatim>\<open>_inquire\<close> and \<^verbatim>\<open>_setCmd\<close>: the line is
  split with \<^verbatim>\<open>split(":", 2)\<close> and unpacked into two attributes, which raises
  \<^verbatim>\<open>ValueError\<close> before any assignment unless there are exactly two parts.\<close>

definition cme_error :: "string \<Rightarrow> asr6501 \<Rightarrow> error \<times> asr6501" where
  "cme_error rxData s =
     (case split_max CHR '':'' 2 rxData of
        [a, b] \<Rightarrow> (ASRCMEError, s\<lparr>lastErrorType := PStr a, lastErrorNum := PStr b\<rparr>)
      | _ \<Rightarrow> (ValueError, s))"

definition expired :: "nat \<Rightarrow> nat \<Rightarrow> int \<Rightarrow> asr6501 \<Rightarrow> bool" where
  "expired t start rxTimeout s = (rxTimeout * int (hz s) \<le> int t - int start)"

function setCmd_loop :: "nat \<Rightarrow> int \<Rightarrow> asr6501 \<Rightarrow> (error + bool) \<times> asr6501" where
  "setCmd_loop start rxTimeout s =
     (let t = fst (time_time s); s1 = snd (time_time s) in
      if expired t start rxTimeout s then (Inl ASRReceiveTimeout, s1)
      else
        let n = fst (in_waiting s1); s2 = snd (in_waiting s1) in
        if n > 0 then
          let rxData = rstrip (fst (readline s2)); s3 = snd (readline s2) in
          if rxData \<noteq> [] then
            (case decode rxData of
               Inl e \<Rightarrow> (Inl e, s3)
             | Inr rx \<Rightarrow>
                 if rx = ''OK'' then (Inr True, s3)
                 else if take 8 rx = ''OK+SEND:'' then (Inr True, s3)
                 else if take 11 rx = ''+CME ERROR:'' then
                   (Inl (fst (cme_error rx s3)), snd (cme_error rx s3))
                 else setCmd_loop start rxTimeout s3)
          else setCmd_loop start rxTimeout s3
        else setCmd_loop start rxTimeout s2)"
  by pat_completeness auto

termination setCmd_loop
  by (relation "measure (\<lambda>(start, rxTimeout, s).
        nat (int start + rxTimeout * int (hz s) + 1 - int (clock s)))")
     (auto simp: expired_def time_time_def in_waiting_def arrive_def readline_def Let_def
           split: list.splits)

declare setCmd_loop.simps [simp del]

text \<open>\<^verbatim>\<open>_setCmd\<close>: clear, remember the command, flush the input, write
  \<^verbatim>\<open>AT+<cmd>\r\n\<close>, then poll.\<close>

definition setCmd :: "string \<Rightarrow> int \<Rightarrow> asr6501 \<Rightarrow> (error + bool) \<times> asr6501" where
  "setCmd cmd rxTimeout s =
     (let s1 = (clearLastError s)\<lparr>lastATCmd := PStr cmd\<rparr>;
          s2 = reset_input_buffer s1;
          s3 = serial_write (''AT+'' @ cmd @ [CHR 0x0D, CHR 0x0A]) s2;
          start = fst (time_time s3);
          s4 = snd (time_time s3)
      in setCmd_loop start rxTimeout s4)"

text \<open>The end of an inquiry that is not an RSSI list: \<^verbatim>\<open>re.match(reply_pat, kvp)\<close>, which
  raises \<^verbatim>\<open>TypeError\<close> when no value line came before \<^verbatim>\<open>OK\<close> and \<^verbatim>\<open>kvp\<close> is still
  \<^verbatim>\<open>None\<close>.\<close>

definition inquire_value :: "string option \<Rightarrow> error + pyval" where
  "inquire_value kvp =
     (case kvp of
        None \<Rightarrow> Inl TypeError
      | Some k \<Rightarrow>
          (case reply_pat_group2 k of
             Some v \<Rightarrow> Inr (PStr v)
           | None \<Rightarrow> Inl ASRPatternMatchFailed))"

function inquire_loop ::
  "nat \<Rightarrow> int \<Rightarrow> string list \<Rightarrow> string option \<Rightarrow> bool \<Rightarrow> asr6501 \<Rightarrow> (error + pyval) \<times> asr6501"
where
  "inquire_loop start rxTimeout rssiData kvp doingRssiList s =
     (let t = fst (time_time s); s1 = snd (time_time s) in
      if expired t start rxTimeout s then (Inl ASRReceiveTimeout, s1)
      else
        let n = fst (in_waiting s1); s2 = snd (in_waiting s1) in
        if n > 0 then
          let rxData = rstrip (fst (readline s2)); s3 = snd (readline s2) in
          if rxData \<noteq> [] then
            (case decode rxData of
               Inl e \<Rightarrow> (Inl e, s3)
             | Inr rx \<Rightarrow>
                 if take 3 rx = ''AT+'' then
                   inquire_loop start rxTimeout rssiData kvp doingRssiList s3
                 else if rx = ''+CRSSI:'' then
                   inquire_loop start rxTimeout rssiData kvp True s3
                 else if rx = ''OK'' then
                   (if doingRssiList then (Inr (PList rssiData), s3)
                    else (inquire_value kvp, s3))
                 else if take 11 rx = ''+CME ERROR:'' then
                   (Inl (fst (cme_error rx s3)), snd (cme_error rx s3))
                 else if doingRssiList then
                   inquire_loop start rxTimeout (rssiData @ [rx]) kvp doingRssiList s3
                 else
                   inquire_loop start rxTimeout rssiData (Some rx) doingRssiList s3)
          else inquire_loop start rxTimeout rssiData kvp doingRssiList s3
        else inquire_loop start rxTimeout rssiData kvp doingRssiList s2)"
  by pat_completeness auto

termination inquire_loop
  by (relation "measure (\<lambda>(start, rxTimeout, rssiData, kvp, doingRssiList, s).
        nat (int start + rxTimeout * int (hz s) + 1 - int (clock s)))")
     (auto simp: expired_def time_time_def in_waiting_def arrive_def readline_def Let_def
           split: list.splits)

declare inquire_loop.simps [simp del]

text \<open>\<^verbatim>\<open>_inquire\<close>: as \<^verbatim>\<open>_setCmd\<close>, with \<^verbatim>\<open>AT+<cmd>?\r\n\<close>.\<close>

definition inquire :: "string \<Rightarrow> int \<Rightarrow> asr6501 \<Rightarrow> (error + pyval) \<times> asr6501" where
  "inquire cmd rxTimeout s =
     (let s1 = (clearLastError s)\<lparr>lastATCmd := PStr cmd\<rparr>;
          s2 = reset_input_buffer s1;
          s3 = serial_write (''AT+'' @ cmd @ [CHR ''?'', CHR 0x0D, CHR 0x0A]) s2;
          start = fst (time_time s3);
          s4 = snd (time_time s3)
      in inquire_loop start rxTimeout [] None False s4)"

text \<open>\<^verbatim>\<open>_noneOrInt\<close>: \<^verbatim>\<open>int(value)\<close> unless the value is \<^verbatim>\<open>None\<close>; \<^verbatim>\<open>int\<close> of a list
  raises \<^verbatim>\<open>TypeError\<close>.\<close>

definition noneOrInt :: "wide_int \<Rightarrow> pyval \<Rightarrow> error + pyval" where
  "noneOrInt wide v =
     (case v of
        PNone \<Rightarrow> Inr PNone
      | PStr x \<Rightarrow> (case py_int wide x of Inl e \<Rightarrow> Inl e | Inr i \<Rightarrow> Inr (PInt i))
      | PInt i \<Rightarrow> Inr (PInt i)
      | PList l \<Rightarrow> Inl TypeError)"

definition inquire_int :: "wide_int \<Rightarrow> string \<Rightarrow> asr6501 \<Rightarrow> (error + pyval) \<times> asr6501" where
  "inquire_int wide cmd s =
     (case inquire cmd 2 s of
        (Inl e, s') \<Rightarrow> (Inl e, s')
      | (Inr v, s') \<Rightarrow> (noneOrInt wide v, s'))"

text \<open>\<^verbatim>\<open>getLastATError\<close>: the dictionary is an association list.\<close>

definition getLastATError :: "asr6501 \<Rightarrow> (string \<times> pyval) list option" where
  "getLastATError s =
     (if lastErrorType s = PNone then None
      else Some [(''AtCmd'', lastATCmd s), (''Type'', lastErrorType s), (''Num'', lastErrorNum s)])"

definition getManufId :: "asr6501 \<Rightarrow> (error + pyval) \<times> asr6501" where
  "getManufId s = inquire ''CGMI'' 2 s"

definition getRX1Delay :: "wide_int \<Rightarrow> asr6501 \<Rightarrow> (error + pyval) \<times> asr6501" where
  "getRX1Delay wide s = inquire_int wide ''CRX1DELAY'' s"

section \<open>The delayed-reply reader\<close>

text \<open>\<^verbatim>\<open>setDownlinkCallback\<close>: a callable is stored, anything else (here \<^verbatim>\<open>None\<close>) is
  refused.\<close>

definition setDownlinkCallback :: "nat option \<Rightarrow> asr6501 \<Rightarrow> bool \<times> asr6501" where
  "setDownlinkCallback func s =
     (case func of
        Some f \<Rightarrow> (True, s\<lparr>downlinkCallback := Some f\<rparr>)
      | None \<Rightarrow> (False, s))"

text \<open>The \<^verbatim>\<open>OK+RECV:\<close> branch: with a callback registered, \<^verbatim>\<open>downlinkRecvd\<close> is set, the
  text after the prefix is split with \<^verbatim>\<open>split(",", 4)\<close> and unpacked into four names,
  which raises \<^verbatim>\<open>ValueError\<close> unless there are exactly four parts, and the callback is
  called with them.\<close>

definition recv_line :: "string \<Rightarrow> asr6501 \<Rightarrow> (error + unit) \<times> asr6501" where
  "recv_line rx s =
     (case downlinkCallback s of
        None \<Rightarrow> (Inr (), s)
      | Some f \<Rightarrow>
          (case split_max CHR '','' 4 (drop 8 rx) of
             [type, port, msglen, msg] \<Rightarrow>
               (Inr (), s\<lparr>downlinkRecvd := True,
                          delivered := delivered s @ [(type, port, msglen, msg)]\<rparr>)
           | _ \<Rightarrow> (Inl ValueError, s\<lparr>downlinkRecvd := True\<rparr>)))"

text \<open>The \<^verbatim>\<open>ERR+SEND:\<close> and \<^verbatim>\<open>ERR+SENT:\<close> branches: the kind is stored, then
  \<^verbatim>\<open>int(rx[9:])\<close>, then the exception of the kind is raised.\<close>

definition send_error ::
  "wide_int \<Rightarrow> string \<Rightarrow> error \<Rightarrow> string \<Rightarrow> asr6501 \<Rightarrow> error \<times> asr6501" where
  "send_error wide kind exn rx s =
     (case py_int wide (drop 9 rx) of
        Inl e \<Rightarrow> (e, s\<lparr>lastErrorType := PStr kind\<rparr>)
      | Inr n \<Rightarrow> (exn, s\<lparr>lastErrorType := PStr kind, lastErrorNum := PInt n\<rparr>))"

text \<open>The branches of \<^verbatim>\<open>_getDelayedReplies\<close> for one decoded line, in the order of the
  source; \<open>Inr ()\<close> goes on with the next line.\<close>

definition delayed_line :: "wide_int \<Rightarrow> string \<Rightarrow> asr6501 \<Rightarrow> (error + unit) \<times> asr6501" where
  "delayed_line wide rx s =
     (if rx = ''+CJOIN:OK'' then (Inr (), s\<lparr>joined := True\<rparr>)
      else if rx = ''+CJOIN:FAIL'' then (Inr (), s\<lparr>joined := False\<rparr>)
      else if take 8 rx = ''OK+SENT:'' then (Inr (), s)
      else if take 8 rx = ''OK+RECV:'' then recv_line rx s
      else if take 8 rx = ''OK+SEND:'' then (Inr (), s)
      else if take 9 rx = ''ERR+SEND:'' then
        (Inl (fst (send_error wide ''ERR+SEND'' ASRERRSend rx s)),
         snd (send_error wide ''ERR+SEND'' ASRERRSend rx s))
      else if take 9 rx = ''ERR+SENT:'' then
        (Inl (fst (send_error wide ''ERR+SENT'' ASRERRSent rx s)),
         snd (send_error wide ''ERR+SENT'' ASRERRSent rx s))
      else (Inr (), s))"

function delayed_loop :: "wide_int \<Rightarrow> asr6501 \<Rightarrow> (error + unit) \<times> asr6501" where
  "delayed_loop wide s =
     (let n = fst (in_waiting s); s1 = snd (in_waiting s) in
      if n > 0 then
        let rx0 = rstrip (fst (readline s1)); s2 = snd (readline s1) in
        if rx0 \<noteq> [] then
          (case decode rx0 of
             Inl e \<Rightarrow> (Inl e, s2)
           | Inr rx \<Rightarrow>
               (case fst (delayed_line wide rx s2) of
                  Inl e \<Rightarrow> (Inl e, snd (delayed_line wide rx s2))
                | Inr u \<Rightarrow> delayed_loop wide (snd (delayed_line wide rx s2))))
        else delayed_loop wide s2
      else (Inr (), s1))"
  by pat_completeness auto

text \<open>Each pass takes one line out of what is buffered or still to come, and no
  clock is read, so the loop ends.\<close>

lemma pending_arrive:
  "length (inbuf (arrive s)) + length (feed (arrive s)) = length (inbuf s) + length (feed s)"
  using sum_length_filter_compl[of "due s" "feed s"] by (simp add: arrive_def)

lemma pending_readline:
  assumes "0 < fst (in_waiting s)"
  shows "length (inbuf (snd (readline (snd (in_waiting s)))))
           + length (feed (snd (readline (snd (in_waiting s)))))
         < length (inbuf s) + length (feed s)"
proof -
  from assms have "inbuf (arrive s) \<noteq> []"
    by (auto simp: in_waiting_def Let_def)
  then obtain l ls where "inbuf (arrive s) = l # ls"
    by (cases "inbuf (arrive s)") auto
  then show ?thesis
    using pending_arrive[of s] by (simp add: in_waiting_def readline_def Let_def)
qed

lemma pending_recv_line:
  "inbuf (snd (recv_line rx s)) = inbuf s \<and> feed (snd (recv_line rx s)) = feed s"
  by (simp add: recv_line_def split: option.splits list.splits)

lemma pending_send_error:
  "inbuf (snd (send_error wide k x rx s)) = inbuf s \<and> feed (snd (send_error wide k x rx s)) = feed s"
  by (simp add: send_error_def split: sum.splits)

lemma pending_delayed_line:
  "inbuf (snd (delayed_line wide rx s)) = inbuf s \<and> feed (snd (delayed_line wide rx s)) = feed s"
  by (simp add: delayed_line_def pending_recv_line pending_send_error)

termination delayed_loop
  by (relation "measure (\<lambda>(wide, s). length (inbuf s) + length (feed s))")
     (auto simp: pending_delayed_line intro: pending_readline)

declare delayed_loop.simps [simp del]

definition getDelayedReplies :: "wide_int \<Rightarrow> asr6501 \<Rightarrow> (error + unit) \<times> asr6501" where
  "getDelayedReplies wide s = delayed_loop wide (clearLastError s)"

section \<open>Public operations\<close>

text \<open>\<^verbatim>\<open>setJoinMode\<close>: the assertion on the mode, then the set command.\<close>

definition setJoinMode :: "int \<Rightarrow> asr6501 \<Rightarrow> (error + bool) \<times> asr6501" where
  "setJoinMode mode s =
     (if \<not> (0 \<le> mode \<and> mode \<le> 1) then (Inl AssertionError, s)
      else
        (case setCmd (''CJOINMODE='' @ str_int mode) 2 s of
           (Inl e, s') \<Rightarrow> (Inl e, s')
         | (Inr ok, s') \<Rightarrow>
             if ok then (Inr True, s'\<lparr>joinMode := PInt mode\<rparr>) else (Inr False, s')))"

definition getJoinMode :: "wide_int \<Rightarrow> asr6501 \<Rightarrow> (error + pyval) \<times> asr6501" where
  "getJoinMode wide s =
     (case inquire_int wide ''CJOINMODE'' s of
        (Inl e, s') \<Rightarrow> (Inl e, s')
      | (Inr mode, s') \<Rightarrow> (Inr mode, s'\<lparr>joinMode := mode\<rparr>))"

definition setLogLevel :: "int \<Rightarrow> asr6501 \<Rightarrow> (error + bool) \<times> asr6501" where
  "setLogLevel level s =
     (if \<not> (0 \<le> level \<and> level \<le> 5) then (Inl AssertionError, s)
      else setCmd (''ILOGLVL='' @ str_int level) 2 s)"

section \<open>Joining\<close>

text \<open>The wait of \<^verbatim>\<open>join\<close>: poll \<^verbatim>\<open>in_waiting\<close> until a line is buffered, reading the
  clock on every pass.\<close>

function join_wait :: "nat \<Rightarrow> int \<Rightarrow> asr6501 \<Rightarrow> (error + unit) \<times> asr6501" where
  "join_wait start rxTimeout s =
     (let n = fst (in_waiting s); s1 = snd (in_waiting s) in
      if n = 0 then
        let t = fst (time_time s1); s2 = snd (time_time s1) in
        if expired t start rxTimeout s1 then (Inl ASRReceiveTimeout, s2)
        else join_wait start rxTimeout s2
      else (Inr (), s1))"
  by pat_completeness auto

termination join_wait
  by (relation "measure (\<lambda>(start, rxTimeout, s).
        nat (int start + rxTimeout * int (hz s) + 1 - int (clock s)))")
     (auto simp: expired_def time_time_def in_waiting_def arrive_def Let_def)

declare join_wait.simps [simp del]

text \<open>The bound of the wait, in seconds: \<^verbatim>\<open>retries*(RX1Delay+1)\<close>.\<close>

definition join_rxTimeout :: "int \<Rightarrow> int \<Rightarrow> int" where
  "join_rxTimeout retries RX1Delay = retries * (RX1Delay + 1)"

definition join_command :: "int \<Rightarrow> int \<Rightarrow> int \<Rightarrow> int \<Rightarrow> string" where
  "join_command start autojoin interval retries =
     ''CJOIN='' @ str_int start @ '','' @ str_int autojoin @ '','' @ str_int interval
       @ '','' @ str_int retries"

text \<open>What follows the accepted command in \<^verbatim>\<open>join\<close>: the RX1 delay is asked for, the
  wait runs, and the delayed replies decide \<^verbatim>\<open>joined\<close>. A delay that is not an integer
  makes the arithmetic raise \<^verbatim>\<open>TypeError\<close>.\<close>

definition join_resolve :: "wide_int \<Rightarrow> int \<Rightarrow> asr6501 \<Rightarrow> (error + bool) \<times> asr6501" where
  "join_resolve wide retries s =
     (case getRX1Delay wide s of
        (Inl e, s1) \<Rightarrow> (Inl e, s1)
      | (Inr (PInt RX1Delay), s1) \<Rightarrow>
          (case join_wait (fst (time_time s1)) (join_rxTimeout retries RX1Delay)
                  (snd (time_time s1)) of
             (Inl e, s2) \<Rightarrow> (Inl e, s2)
           | (Inr u, s2) \<Rightarrow>
               (case getDelayedReplies wide s2 of
                  (Inl e, s3) \<Rightarrow> (Inl e, s3)
                | (Inr v, s3) \<Rightarrow> (Inr (joined s3), s3)))
      | (Inr other, s1) \<Rightarrow> (Inl TypeError, s1))"

definition join ::
  "wide_int \<Rightarrow> int \<Rightarrow> int \<Rightarrow> int \<Rightarrow> int \<Rightarrow> asr6501 \<Rightarrow> (error + bool) \<times> asr6501" where
  "join wide start autojoin interval retries s =
     (if \<not> (0 \<le> start \<and> start \<le> 1) then (Inl AssertionError, s)
      else if \<not> (0 \<le> autojoin \<and> autojoin \<le> 1) then (Inl AssertionError, s)
      else if \<not> (1 \<le> interval \<and> interval \<le> 255) then (Inl AssertionError, s)
      else if \<not> (1 \<le> retries \<and> retries \<le> 256) then (Inl AssertionError, s)
      else if joined s \<and> start \<noteq> 0 then (Inr False, s)
      else
        (case setCmd (join_command start autojoin interval retries) 2
                (reset_input_buffer (clearLastError s)) of
           (Inl e, s1) \<Rightarrow> (Inl e, s1)
         | (Inr ok, s1) \<Rightarrow> if \<not> ok then (Inr False, s1) else join_resolve wide retries s1))"

section \<open>Validating and setting keys\<close>

text \<open>\<^verbatim>\<open>re.match\<close> of \<^verbatim>\<open>^([0-9A-F][0-9A-F]){n}$\<close>: \<open>2 * n\<close> upper-case hexadecimal
  digits, after which the text ends; \<^verbatim>\<open>$\<close> also matches just before a line feed that
  ends the text.\<close>

definition is_upper_hex :: "char \<Rightarrow> bool" where
  "is_upper_hex c = (is_digit c \<or> (65 \<le> (of_char c :: nat) \<and> (of_char c :: nat) \<le> 70))"

definition hex_pairs_match :: "nat \<Rightarrow> string \<Rightarrow> bool" where
  "hex_pairs_match n s =
     (length (take (2 * n) s) = 2 * n \<and> list_all is_upper_hex (take (2 * n) s)
      \<and> (drop (2 * n) s = [] \<or> drop (2 * n) s = [CHR 0x0A]))"

definition hex8char :: "string \<Rightarrow> bool" where
  "hex8char s = hex_pairs_match 4 s"

definition hex16char :: "string \<Rightarrow> bool" where
  "hex16char s = hex_pairs_match 8 s"

definition hex32char :: "string \<Rightarrow> bool" where
  "hex32char s = hex_pairs_match 16 s"

definition OTAA :: pyval where
  "OTAA = PInt 0"

definition ABP :: pyval where
  "ABP = PInt 1"

definition setDevEui :: "string \<Rightarrow> asr6501 \<Rightarrow> (error + bool) \<times> asr6501" where
  "setDevEui deveui s =
     (if joinMode s \<noteq> OTAA then (Inl AssertionError, s)
      else if hex16char deveui then setCmd (''CDEVEUI='' @ deveui) 2 s
      else (Inl ASRInvalidDevEui, s))"

definition setAppEui :: "string \<Rightarrow> asr6501 \<Rightarrow> (error + bool) \<times> asr6501" where
  "setAppEui appeui s =
     (if joinMode s \<noteq> OTAA then (Inl AssertionError, s)
      else if hex16char appeui then setCmd (''CAPPEUI='' @ appeui) 2 s
      else (Inl ASRInvalidAppEui, s))"

definition setAppKey :: "string \<Rightarrow> asr6501 \<Rightarrow> (error + bool) \<times> asr6501" where
  "setAppKey appkey s =
     (if joinMode s \<noteq> OTAA then (Inl AssertionError, s)
      else if hex32char appkey then setCmd (''CAPPKEY='' @ appkey) 2 s
      else (Inl ASRInvalidAppKey, s))"

definition setDevAddr :: "string \<Rightarrow> asr6501 \<Rightarrow> (error + bool) \<times> asr6501" where
  "setDevAddr devaddr s =
     (if hex16char devaddr then setCmd (''CDEVADDR='' @ devaddr) 2 s
      else (Inl ASRInvalidDevAddr, s))"

definition setAppSKey :: "string \<Rightarrow> asr6501 \<Rightarrow> (error + bool) \<times> asr6501" where
  "setAppSKey appskey s =
     (if joinMode s \<noteq> ABP then (Inl AssertionError, s)
      else if hex32char appskey then setCmd (''CAPPSKEY='' @ appskey) 2 s
      else (Inl ASRInvalidAppSKey, s))"

definition setNwkSKey :: "string \<Rightarrow> asr6501 \<Rightarrow> (error + bool) \<times> asr6501" where
  "setNwkSKey nwkskey s =
     (if hex32char nwkskey then setCmd (''CNWKSKEY='' @ nwkskey) 2 s
      else (Inl ASRInvalidNwkSKey, s))"

section \<open>Sending an uplink\<close>

text \<open>The delayed-reply reader reads no clock, so the time at which it returns is the
  time at which it was called.\<close>

lemma time_time_simps:
  "fst (time_time s) = clock s"
  "clock (snd (time_time s)) = Suc (clock s)"
  "hz (snd (time_time s)) = hz s"
  by (simp_all add: time_time_def)

lemma in_waiting_clock:
  "clock (snd (in_waiting s)) = clock s" "hz (snd (in_waiting s)) = hz s"
  by (simp_all add: in_waiting_def arrive_def Let_def)

lemma readline_clock:
  "clock (snd (readline s)) = clock s" "hz (snd (readline s)) = hz s"
  by (simp_all add: readline_def split: list.splits)

lemma recv_line_clock:
  "clock (snd (recv_line rx s)) = clock s" "hz (snd (recv_line rx s)) = hz s"
  by (simp_all add: recv_line_def split: option.splits list.splits)

lemma send_error_clock:
  "clock (snd (send_error wide k e rx s)) = clock s" "hz (snd (send_error wide k e rx s)) = hz s"
  by (simp_all add: send_error_def split: sum.splits)

lemma delayed_line_clock:
  "clock (snd (delayed_line wide rx s)) = clock s" "hz (snd (delayed_line wide rx s)) = hz s"
  by (simp_all add: delayed_line_def recv_line_clock send_error_clock)

lemma delayed_loop_clock:
  "clock (snd (delayed_loop wide s)) = clock s \<and> hz (snd (delayed_loop wide s)) = hz s"
proof (induction wide s rule: delayed_loop.induct)
  case (1 wide s)
  show ?case
    apply (subst (1 2) delayed_loop.simps)
    using "1.IH"
    apply (simp add: Let_def in_waiting_clock readline_clock delayed_line_clock
                split: sum.splits)
    done
qed

lemma getDelayedReplies_clock:
  "clock (snd (getDelayedReplies wide s)) = clock s \<and> hz (snd (getDelayedReplies wide s)) = hz s"
  using delayed_loop_clock[of wide "clearLastError s"]
  by (simp add: getDelayedReplies_def clearLastError_def)

text \<open>The loop of \<^verbatim>\<open>sendPayload\<close>: while no more than \<open>delay\<close> seconds have gone by,
  drain the delayed replies; then \<^verbatim>\<open>return True\<close>.\<close>

function drain_loop ::
  "wide_int \<Rightarrow> nat \<Rightarrow> int \<Rightarrow> asr6501 \<Rightarrow> (error + bool) \<times> asr6501" where
  "drain_loop wide start delay s =
     (let t = fst (time_time s); s1 = snd (time_time s) in
      if int t - int start \<le> delay * int (hz s) then
        (case fst (getDelayedReplies wide s1) of
           Inl e \<Rightarrow> (Inl e, snd (getDelayedReplies wide s1))
         | Inr u \<Rightarrow> drain_loop wide start delay (snd (getDelayedReplies wide s1)))
      else (Inr True, s1))"
  by pat_completeness auto

termination drain_loop
  by (relation "measure (\<lambda>(wide, start, delay, s).
        nat (int start + delay * int (hz s) + 1 - int (clock s)))")
     (auto simp: getDelayedReplies_clock time_time_def)

declare drain_loop.simps [simp del]

definition uplink_command :: "int \<Rightarrow> int \<Rightarrow> string \<Rightarrow> string" where
  "uplink_command confirm nbtrials hexPayload =
     ''DTRX='' @ str_int confirm @ '','' @ str_int nbtrials @ '',''
       @ str_int (int (length hexPayload)) @ '','' @ hexPayload"

text \<open>The body of the \<^verbatim>\<open>try\<close> block of \<^verbatim>\<open>sendPayload\<close>.\<close>

definition sendPayload_try ::
  "wide_int \<Rightarrow> string \<Rightarrow> int \<Rightarrow> int \<Rightarrow> asr6501 \<Rightarrow> (error + bool) \<times> asr6501" where
  "sendPayload_try wide hexPayload confirm nbtrials s =
     (case setCmd (uplink_command confirm nbtrials hexPayload) 2 (s\<lparr>downlinkRecvd := False\<rparr>) of
        (Inl e, s1) \<Rightarrow> (Inl e, s1)
      | (Inr ok, s1) \<Rightarrow>
          (case getRX1Delay wide s1 of
             (Inl e, s2) \<Rightarrow> (Inl e, s2)
           | (Inr (PInt RX1Delay), s2) \<Rightarrow>
               drain_loop wide (fst (time_time s2)) (RX1Delay + 2) (snd (time_time s2))
           | (Inr other, s2) \<Rightarrow> (Inl TypeError, s2)))"

text \<open>\<^verbatim>\<open>sendPayload\<close>. The payload is the caller's text, given by its code points. The
  assertion and \<^verbatim>\<open>payload.encode("utf-8").hex()\<close> come before the \<^verbatim>\<open>try\<close>, so an
  exception of theirs reaches the caller. The \<^verbatim>\<open>finally\<close> clause is \<^verbatim>\<open>return False\<close>: it
  replaces the \<^verbatim>\<open>return True\<close> of the body and drops an exception that the \<^verbatim>\<open>except\<close>
  clause has logged.\<close>

definition sendPayload ::
  "wide_int \<Rightarrow> nat list option \<Rightarrow> int \<Rightarrow> int \<Rightarrow> asr6501 \<Rightarrow> (error + bool) \<times> asr6501" where
  "sendPayload wide payload confirm nbtrials s =
     (case payload of
        None \<Rightarrow> (Inl AssertionError, s)
      | Some p \<Rightarrow>
          (case encode_utf8 p of
             Inl e \<Rightarrow> (Inl e, s)
           | Inr bytes \<Rightarrow>
               (case sendPayload_try wide (hex bytes) confirm nbtrials s of
                  (Inr r, s') \<Rightarrow> (Inr False, s')
                | (Inl e, s') \<Rightarrow> (Inr False, s'))))"

section \<open>Construction\<close>

text \<open>The \<^verbatim>\<open>try\<close> block of \<^verbatim>\<open>__init__\<close>: the manufacturer is asked for and compared.\<close>

definition init_check :: "asr6501 \<Rightarrow> (error + unit) \<times> asr6501" where
  "init_check s =
     (case getManufId s of
        (Inl e, s1) \<Rightarrow> (Inl e, s1)
      | (Inr reply, s1) \<Rightarrow>
          if reply = PNone then (Inl ASRSerialError, s1)
          else if reply \<noteq> PStr ''ASR'' then (Inl ASRUnsupportedManuf, s1)
          else (Inr (), s1))"

text \<open>\<^verbatim>\<open>__init__\<close>, given the record that holds the serial channel handed in. An exception
  of the \<^verbatim>\<open>try\<close> block is caught by \<^verbatim>\<open>except Exception as e\<close> and turned into
  \<^verbatim>\<open>exit(e)\<close>, which raises \<^verbatim>\<open>SystemExit\<close> carrying it. Then the modem's logging is turned
  off and the join mode read.\<close>

definition init_fields :: "asr6501 \<Rightarrow> asr6501" where
  "init_fields s = s\<lparr>downlinkCallback := None, downlinkRecvd := False,
                      lastErrorNum := PNone, lastErrorType := PNone, lastATCmd := PNone\<rparr>"

definition init :: "wide_int \<Rightarrow> asr6501 \<Rightarrow> (error + unit) \<times> asr6501" where
  "init wide s =
     (case init_check (init_fields s) of
        (Inl e, s1) \<Rightarrow> (Inl (SystemExit e), s1)
      | (Inr u, s1) \<Rightarrow>
          (case setLogLevel 0 s1 of
             (Inl e, s2) \<Rightarrow> (Inl e, s2)
           | (Inr ok, s2) \<Rightarrow>
               (case getJoinMode wide (s2\<lparr>joined := False\<rparr>) of
                  (Inl e, s3) \<Rightarrow> (Inl e, s3)
                | (Inr mode, s3) \<Rightarrow> (Inr (), s3))))"

section \<open>Channels and predicates that the properties speak of\<close>

text \<open>An instance at rest on a channel that is silent, with ten clock ticks to the
  second, and the same instance on a channel that will emit the given lines.\<close>

definition idle :: asr6501 where
  "idle = \<lparr>clock = 0, hz = 10, feed = [], inbuf = [], written = [], delivered = [],
           downlinkCallback = None, downlinkRecvd = False, lastErrorNum = PNone,
           lastErrorType = PNone, lastATCmd = PNone, LastErrorType = PNone,
           LastErrorNum = PNone, joined = False, joinMode = PNone\<rparr>"

text \<open>For the worked scenarios, an interpreter whose \<^verbatim>\<open>int\<close> refuses every text beyond
  ASCII or beyond 640 characters.\<close>

definition ascii_only :: wide_int where
  "ascii_only s = None"

definition with_feed :: "(nat \<times> string) list \<Rightarrow> asr6501" where
  "with_feed f = idle\<lparr>feed := f\<rparr>"




text \<open>Nothing is buffered and no line reaches the buffer up to the given tick.\<close>

definition silent_until :: "int \<Rightarrow> asr6501 \<Rightarrow> bool" where
  "silent_until deadline s =
     (inbuf s = [] \<and> list_all (\<lambda>e. deadline < int (fst e)) (feed s))"

text \<open>One pass of the loop of \<^verbatim>\<open>_inquire\<close>, written without recursion: \<open>Inl\<close> is the
  outcome that ends the loop, \<open>Inr\<close> the local variables for the next pass.\<close>

definition inquire_pass ::
  "nat \<Rightarrow> int \<Rightarrow> string list \<Rightarrow> string option \<Rightarrow> bool \<Rightarrow> asr6501
     \<Rightarrow> ((error + pyval) + string list \<times> string option \<times> bool) \<times> asr6501" where
  "inquire_pass start rxTimeout rssiData kvp doingRssiList s =
     (let s1 = snd (time_time s); s2 = snd (in_waiting s1); s3 = snd (readline s2);
          rxData = rstrip (fst (readline s2)) in
      if expired (clock s) start rxTimeout s then (Inl (Inl ASRReceiveTimeout), s1)
      else if fst (in_waiting s1) = 0 then (Inr (rssiData, kvp, doingRssiList), s2)
      else if rxData = [] then (Inr (rssiData, kvp, doingRssiList), s3)
      else
        (case decode rxData of
           Inl e \<Rightarrow> (Inl (Inl e), s3)
         | Inr rx \<Rightarrow>
             if take 3 rx = ''AT+'' then (Inr (rssiData, kvp, doingRssiList), s3)
             else if rx = ''+CRSSI:'' then (Inr (rssiData, kvp, True), s3)
             else if rx = ''OK'' then
               (Inl (if doingRssiList then Inr (PList rssiData) else inquire_value kvp), s3)
             else if take 11 rx = ''+CME ERROR:'' then
               (Inl (Inl (fst (cme_error rx s3))), snd (cme_error rx s3))
             else if doingRssiList then (Inr (rssiData @ [rx], kvp, doingRssiList), s3)
             else (Inr (rssiData, Some rx, doingRssiList), s3)))"


definition join_world :: asr6501 where
  "join_world = with_feed [(3, ''OK''), (6, ''+CRX1DELAY:5''), (7, ''OK'')]"

definition uplink_world :: asr6501 where
  "uplink_world = with_feed [(3, ''OK+SEND:02''), (6, ''+CRX1DELAY:1''), (7, ''OK'')]"

definition cme_world :: asr6501 where
  "cme_world = with_feed [(3, ''AT+CGMI?''), (4, ''+CME ERROR:1'')]"

definition cme_then_ok_world :: asr6501 where
  "cme_then_ok_world =
     with_feed [(3, ''AT+CDEVEUI?''), (4, ''+CME ERROR:1''),
                (7, ''AT+CGMI?''), (8, ''+CGMI=ASR''), (9, ''OK'')]"

definition recv_world :: "string \<Rightarrow> asr6501" where
  "recv_world line = idle\<lparr>downlinkCallback := Some 0, inbuf := [line]\<rparr>"

definition wrong_manuf_world :: asr6501 where
  "wrong_manuf_world = with_feed [(3, ''AT+CGMI?''), (4, ''+CGMI=XYZ''), (5, ''OK'')]"

text \<open>The specification's wording of a key: an upper-case hexadecimal string of exactly
  the required length. A text is \<open>malformed\<close> for a length when it is neither such a
  string nor such a string followed by one line feed.\<close>

definition fixed_upper_hex :: "nat \<Rightarrow> string \<Rightarrow> bool" where
  "fixed_upper_hex n s = (length s = n \<and> list_all is_upper_hex s)"

definition malformed :: "nat \<Rightarrow> string \<Rightarrow> bool" where
  "malformed n s =
     (\<not> fixed_upper_hex n s
      \<and> \<not> (s \<noteq> [] \<and> last s = CHR 0x0A \<and> fixed_upper_hex n (butlast s)))"

section \<open>Verified properties\<close>

subsection \<open>A set command never returns False\<close>

lemma setCmd_loop_True:
  "fst (setCmd_loop start rxTimeout s) = Inr b \<Longrightarrow> b"
proof (induction start rxTimeout s rule: setCmd_loop.induct)
  case (1 start rxTimeout s)
  show ?case
    using "1.prems" "1.IH"
    apply (subst (asm) setCmd_loop.simps)
    apply (auto simp: Let_def split: if_splits sum.splits)
    done
qed

lemma setCmd_not_False: "fst (setCmd cmd rxTimeout s) \<noteq> Inr False"
  using setCmd_loop_True[of _ _ _ False] by (auto simp: setCmd_def Let_def)

text \<open>
  Claim C10. For every command string and timeout, \<^verbatim>\<open>_setCmd\<close> returns True or raises
  an exception and never returns False; so the \<^verbatim>\<open>return False\<close> branch of
  \<^verbatim>\<open>setJoinMode\<close>, which returns what \<^verbatim>\<open>_setCmd\<close> gave, cannot be reached: a set
  transaction that does not succeed surfaces as an exception.
\<close>

theorem setCmd_True_or_raises:
  "(fst (setCmd cmd rxTimeout s) = Inr True \<or> (\<exists>e. fst (setCmd cmd rxTimeout s) = Inl e))
   \<and> fst (setJoinMode mode s) \<noteq> Inr False"
proof -
  have "fst (setCmd cmd rxTimeout s) = Inr True \<or> (\<exists>e. fst (setCmd cmd rxTimeout s) = Inl e)"
    using setCmd_not_False[of cmd rxTimeout s] by (cases "fst (setCmd cmd rxTimeout s)") auto
  moreover have "fst (setJoinMode mode s) \<noteq> Inr False"
    using setCmd_not_False[of "''CJOINMODE='' @ str_int mode" 2 s]
    by (auto simp: setJoinMode_def split: prod.splits sum.splits if_splits)
  ultimately show ?thesis by blast
qed

subsection \<open>An inquiry that hears only echoes times out\<close>













subsection \<open>The wait of a join\<close>

lemma joined_prims:
  "joined (snd (time_time s)) = joined s"
  "joined (snd (in_waiting s)) = joined s"
  "joined (snd (readline s)) = joined s"
  "joined (snd (cme_error rx s)) = joined s"
  "joined (reset_input_buffer s) = joined s"
  "joined (serial_write b s) = joined s"
  "joined (clearLastError s) = joined s"
  by (simp_all add: time_time_def in_waiting_def arrive_def Let_def readline_def cme_error_def
        reset_input_buffer_def serial_write_def clearLastError_def split: list.splits)

lemma setCmd_loop_joined: "joined (snd (setCmd_loop start T s)) = joined s"
proof (induction start T s rule: setCmd_loop.induct)
  case (1 start T s)
  show ?case
    apply (subst setCmd_loop.simps)
    using "1.IH"
    apply (simp add: Let_def joined_prims split: sum.splits)
    done
qed

lemma inquire_loop_pass:
  "inquire_loop start T r k d s =
     (case inquire_pass start T r k d s of
        (Inl res, s') \<Rightarrow> (res, s')
      | (Inr (r', k', d'), s') \<Rightarrow> inquire_loop start T r' k' d' s')"
  by (subst inquire_loop.simps)
     (simp add: inquire_pass_def Let_def time_time_simps split: sum.splits)

lemma inquire_pass_frame:
  "joined (snd (inquire_pass start T r k d s)) = joined s"
  "clock (snd (inquire_pass start T r k d s)) = Suc (clock s)"
  "hz (snd (inquire_pass start T r k d s)) = hz s"
  by (simp_all add: inquire_pass_def Let_def joined_prims time_time_simps in_waiting_clock
        readline_clock cme_error_def split: sum.splits list.splits)

lemma inquire_pass_continues:
  "fst (inquire_pass start T r k d s) = Inr x \<Longrightarrow> \<not> expired (clock s) start T s"
  by (auto simp: inquire_pass_def Let_def split: sum.splits if_splits)

lemma inquire_loop_joined: "joined (snd (inquire_loop start T r k d s)) = joined s"
proof (induction "nat (int start + T * int (hz s) + 1 - int (clock s))" arbitrary: r k d s
         rule: less_induct)
  case less
  obtain out s' where p: "inquire_pass start T r k d s = (out, s')"
    by (cases "inquire_pass start T r k d s")
  have fr: "joined s' = joined s" "clock s' = Suc (clock s)" "hz s' = hz s"
    using inquire_pass_frame[of start T r k d s] p by simp_all
  show ?case
  proof (cases out)
    case (Inl res)
    then show ?thesis using p fr by (simp add: inquire_loop_pass[of start T r k d s])
  next
    case (Inr x)
    obtain r' k' d' where x: "x = (r', k', d')" by (cases x) auto
    have "\<not> expired (clock s) start T s"
      using inquire_pass_continues[of start T r k d s x] p Inr by simp
    then have "nat (int start + T * int (hz s') + 1 - int (clock s'))
               < nat (int start + T * int (hz s) + 1 - int (clock s))"
      using fr by (simp add: expired_def)
    from less.hyps[OF this, of r' k' d'] show ?thesis
      using p Inr x fr by (simp add: inquire_loop_pass[of start T r k d s])
  qed
qed

lemma silent_in_waiting:
  assumes "silent_until D s" "int (clock s) \<le> D"
  shows "in_waiting s = (0, s)"
proof -
  have "filter (due s) (feed s) = []" "filter (\<lambda>e. \<not> due s e) (feed s) = feed s"
    using assms
    by (auto simp: silent_until_def due_def list_all_iff filter_empty_conv filter_id_conv)
  then show ?thesis
    using assms(1) by (simp add: in_waiting_def arrive_def Let_def silent_until_def)
qed

lemma silent_time_time: "silent_until D (snd (time_time s)) = silent_until D s"
  by (simp add: silent_until_def time_time_def)

lemma join_wait_silent:
  assumes "silent_until D s" "max (int (clock s)) (int start + T * int (hz s)) \<le> D"
  shows "fst (join_wait start T s) = Inl ASRReceiveTimeout
         \<and> int (clock (snd (join_wait start T s)))
             = max (int (clock s)) (int start + T * int (hz s)) + 1
         \<and> joined (snd (join_wait start T s)) = joined s"
  using assms
proof (induction "nat (int start + T * int (hz s) + 1 - int (clock s))" arbitrary: s
         rule: less_induct)
  case less
  have iw: "in_waiting s = (0, s)"
    using silent_in_waiting[OF less.prems(1)] less.prems(2) by simp
  show ?case
  proof (cases "expired (clock s) start T s")
    case True
    then show ?thesis
      using iw by (subst (1 2 3) join_wait.simps)
        (simp add: Let_def time_time_simps joined_prims expired_def)
  next
    case False
    let ?s' = "snd (time_time s)"
    have eq: "join_wait start T s = join_wait start T ?s'"
      using iw False by (subst join_wait.simps) (simp add: Let_def time_time_simps)
    have m: "nat (int start + T * int (hz ?s') + 1 - int (clock ?s'))
             < nat (int start + T * int (hz s) + 1 - int (clock s))"
      using False by (simp add: expired_def time_time_simps)
    have b: "max (int (clock ?s')) (int start + T * int (hz ?s')) \<le> D"
      using False less.prems(2) by (simp add: expired_def time_time_simps)
    from less.hyps[OF m _ b] less.prems(1) show ?thesis
      using False by (simp add: eq silent_time_time time_time_simps joined_prims expired_def)
  qed
qed

lemma setCmd_joined: "joined (snd (setCmd cmd T s)) = joined s"
  by (simp add: setCmd_def Let_def setCmd_loop_joined joined_prims)

lemma inquire_joined: "joined (snd (inquire cmd T s)) = joined s"
  by (simp add: inquire_def Let_def inquire_loop_joined joined_prims)

lemma getRX1Delay_joined: "joined (snd (getRX1Delay wide s)) = joined s"
  using inquire_joined[of "''CRX1DELAY''" 2 s]
  by (auto simp: getRX1Delay_def inquire_int_def split: prod.splits sum.splits)

text \<open>
  Claim C5. For a join start that is accepted (start 1, not joined, the set command
  returns True), the bound of the wait is \<open>retries * (RX1Delay + 1)\<close> seconds, with
  the RX1 delay read from the modem (48 seconds for 8 retries and a delay of 5); if no
  line is buffered within that bound, \<^verbatim>\<open>ASRReceiveTimeout\<close> is raised, at the first clock
  reading at which the bound has gone by, and the instance stays not joined.
\<close>

theorem join_wait_bound:
  assumes "\<not> joined s"
    and "0 \<le> autojoin \<and> autojoin \<le> 1" and "1 \<le> interval \<and> interval \<le> 255"
    and "1 \<le> retries \<and> retries \<le> 256"
    and "s1 = snd (setCmd (join_command 1 autojoin interval retries) 2
                     (reset_input_buffer (clearLastError s)))"
    and "fst (setCmd (join_command 1 autojoin interval retries) 2
                     (reset_input_buffer (clearLastError s))) = Inr True"
    and "s2 = snd (getRX1Delay wide s1)"
    and "fst (getRX1Delay wide s1) = Inr (PInt RX1Delay)"
    and "silent_until (int (clock s2) + max 1 (retries * (RX1Delay + 1) * int (hz s2))) s2"
  shows "fst (join wide 1 autojoin interval retries s) = Inl ASRReceiveTimeout
         \<and> \<not> joined (snd (join wide 1 autojoin interval retries s))
         \<and> int (clock (snd (join wide 1 autojoin interval retries s)))
             = int (clock s2) + max 1 (retries * (RX1Delay + 1) * int (hz s2)) + 1
         \<and> join_rxTimeout 8 5 = 48"
proof -
  let ?T = "join_rxTimeout retries RX1Delay"
  let ?s3 = "snd (time_time s2)"
  have sil: "silent_until (int (clock s2) + max 1 (?T * int (hz s2))) ?s3"
    using assms(9) by (simp add: silent_time_time join_rxTimeout_def)
  have bnd: "max (int (clock ?s3)) (int (clock s2) + ?T * int (hz ?s3))
             \<le> int (clock s2) + max 1 (?T * int (hz s2))"
    by (simp add: time_time_simps)
  note w = join_wait_silent[OF sil bnd]
  have j2: "joined s2 = joined s"
    using assms(5,7) by (simp add: getRX1Delay_joined setCmd_joined joined_prims)
  have res: "join_resolve wide retries s1
             = (Inl ASRReceiveTimeout, snd (join_wait (clock s2) ?T ?s3))"
    using assms(7,8) w
    by (cases "getRX1Delay wide s1"; cases "join_wait (clock s2) ?T ?s3")
       (simp add: join_resolve_def time_time_simps)
  have "join wide 1 autojoin interval retries s = join_resolve wide retries s1"
    using assms(1-6)
    by (cases "setCmd (join_command 1 autojoin interval retries) 2
                 (reset_input_buffer (clearLastError s))")
       (simp add: join_def)
  then show ?thesis
    using res w j2 assms(1)
    by (simp add: time_time_simps joined_prims join_rxTimeout_def max_def)
qed

theorem join_wait_bound_witness:
  "fst (join ascii_only 1 0 8 8 join_world) = Inl ASRReceiveTimeout
   \<and> \<not> joined (snd (join ascii_only 1 0 8 8 join_world))
   \<and> clock (snd (join ascii_only 1 0 8 8 join_world)) = 488
   \<and> join_rxTimeout 8 5 = 48"
proof -
  let ?c = "setCmd (join_command 1 0 8 8) 2 (reset_input_buffer (clearLastError join_world))"
  let ?s1 = "snd ?c"
  let ?s2 = "snd (getRX1Delay ascii_only ?s1)"
  have h1: "\<not> joined join_world" by code_simp
  have h2: "(0::int) \<le> 0 \<and> (0::int) \<le> 1" by simp
  have h3: "(1::int) \<le> 8 \<and> (8::int) \<le> 255" by simp
  have h4: "(1::int) \<le> 8 \<and> (8::int) \<le> 256" by simp
  have h6: "fst ?c = Inr True" by code_simp
  have h8: "fst (getRX1Delay ascii_only ?s1) = Inr (PInt 5)" by code_simp
  have h9: "silent_until (int (clock ?s2) + max 1 (8 * (5 + 1) * int (hz ?s2))) ?s2"
    by code_simp
  have c: "clock ?s2 = 7" "hz ?s2 = 10" by code_simp+
  show ?thesis
    using join_wait_bound[OF h1 h2 h3 h4 refl h6 refl h8 h9] c by simp
qed

subsection \<open>The result of sendPayload\<close>

text \<open>
  Claim C1 as stated fails: the payload is encoded before the \<^verbatim>\<open>try\<close> block, so a
  payload string with a lone surrogate makes \<^verbatim>\<open>sendPayload\<close> raise
  \<^verbatim>\<open>UnicodeEncodeError\<close> instead of returning False, and nothing is written.
\<close>

theorem sendPayload_surrogate_counterexample:
  "fst (sendPayload ascii_only (Some [0xD800]) 0 8 uplink_world) = Inl UnicodeEncodeError
   \<and> fst (sendPayload ascii_only (Some [0xD800]) 0 8 uplink_world) \<noteq> Inr False
   \<and> written (snd (sendPayload ascii_only (Some [0xD800]) 0 8 uplink_world)) = []"
proof -
  have "encode_utf8 [0xD800] = Inl UnicodeEncodeError"
    by (simp add: encode_cp_def)
  then show ?thesis
    by (simp add: sendPayload_def uplink_world_def with_feed_def idle_def)
qed

text \<open>
  Claim C1, amended. For every payload string that has a UTF-8 encoding, and every
  confirm flag and retry count, \<^verbatim>\<open>sendPayload\<close> returns False, also when the uplink
  command was accepted and the drain of the delayed replies ended without an error, so
  that the body of the \<^verbatim>\<open>try\<close> had reached its \<^verbatim>\<open>return True\<close>: on the channel
  \<open>uplink_world\<close> the body returns True and \<^verbatim>\<open>sendPayload\<close> returns False.
\<close>

theorem sendPayload_returns_False:
  assumes "encode_utf8 payload = Inr bytes"
  shows "fst (sendPayload wide (Some payload) confirm nbtrials s) = Inr False
         \<and> fst (sendPayload_try ascii_only (hex ''hi'') 0 8 uplink_world) = Inr True
         \<and> fst (sendPayload ascii_only (Some [104, 105]) 0 8 uplink_world) = Inr False"
proof -
  have "fst (sendPayload w (Some p) c n x) = Inr False" if "encode_utf8 p = Inr b"
    for w p c n x b
    using that by (simp add: sendPayload_def split: prod.splits sum.splits)
  moreover have "encode_utf8 [104, 105] = Inr ''hi''" by code_simp
  moreover have "fst (sendPayload_try ascii_only (hex ''hi'') 0 8 uplink_world) = Inr True"
    by code_simp
  ultimately show ?thesis using assms by blast
qed

theorem sendPayload_returns_False_witness:
  "encode_utf8 [104, 105] = Inr ''hi''
   \<and> fst (sendPayload ascii_only (Some [104, 105]) 0 8 uplink_world) = Inr False
   \<and> fst (sendPayload_try ascii_only (hex ''hi'') 0 8 uplink_world) = Inr True"
proof -
  have h: "encode_utf8 [104, 105] = Inr ''hi''" by code_simp
  show ?thesis
    using h sendPayload_returns_False[OF h, of ascii_only 0 8 uplink_world] by simp
qed

subsection \<open>The last error across transactions\<close>

text \<open>
  Claim C2 says that every transaction starts by clearing the stored last error, so
  that after a transaction without a device error \<^verbatim>\<open>getLastATError\<close> returns None. The
  code does otherwise: \<^verbatim>\<open>_clearLastError\<close> leaves \<^verbatim>\<open>lastErrorType\<close> and \<^verbatim>\<open>lastErrorNum\<close> as
  they were. On \<open>cme_then_ok_world\<close> a first inquiry is answered by \<^verbatim>\<open>+CME ERROR:1\<close>, a
  second one succeeds with the value \<^verbatim>\<open>ASR\<close>, and \<^verbatim>\<open>getLastATError\<close> then still returns
  the error of the first, under the command of the second.
\<close>

theorem last_error_survives_next_transaction:
  "fst (inquire ''CDEVEUI'' 2 cme_then_ok_world) = Inl ASRCMEError
   \<and> fst (inquire ''CGMI'' 2 (snd (inquire ''CDEVEUI'' 2 cme_then_ok_world)))
       = Inr (PStr ''ASR'')
   \<and> getLastATError (snd (inquire ''CGMI'' 2 (snd (inquire ''CDEVEUI'' 2 cme_then_ok_world))))
       = Some [(''AtCmd'', PStr ''CGMI''), (''Type'', PStr ''+CME ERROR''),
               (''Num'', PStr ''1'')]
   \<and> lastErrorType (clearLastError s) = lastErrorType s
   \<and> lastErrorNum (clearLastError s) = lastErrorNum s"
proof -
  have "fst (inquire ''CDEVEUI'' 2 cme_then_ok_world) = Inl ASRCMEError" by code_simp
  moreover have "fst (inquire ''CGMI'' 2 (snd (inquire ''CDEVEUI'' 2 cme_then_ok_world)))
                 = Inr (PStr ''ASR'')" by code_simp
  moreover have
    "getLastATError (snd (inquire ''CGMI'' 2 (snd (inquire ''CDEVEUI'' 2 cme_then_ok_world))))
       = Some [(''AtCmd'', PStr ''CGMI''), (''Type'', PStr ''+CME ERROR''),
               (''Num'', PStr ''1'')]"
    by code_simp
  ultimately show ?thesis by (simp add: clearLastError_def)
qed

subsection \<open>Downlink notifications\<close>

text \<open>
  Claim C4 says that a receive notification is split on its first three commas only
  and the callback called once with the four fields, the payload kept as it is even
  when it holds commas. The code splits with \<^verbatim>\<open>split(",", 4)\<close>: for
  \<^verbatim>\<open>OK+RECV:1,2,4,deadbeef\<close> the callback is called once with the four fields, but for
  \<^verbatim>\<open>OK+RECV:1,2,4,de,ad\<close> there are five parts, the unpacking raises \<^verbatim>\<open>ValueError\<close> and
  the callback is not called.
\<close>

theorem recv_payload_with_comma_raises:
  "fst (getDelayedReplies wide (recv_world ''OK+RECV:1,2,4,de,ad'')) = Inl ValueError
   \<and> delivered (snd (getDelayedReplies wide (recv_world ''OK+RECV:1,2,4,de,ad''))) = []
   \<and> fst (getDelayedReplies wide (recv_world ''OK+RECV:1,2,4,deadbeef'')) = Inr ()
   \<and> delivered (snd (getDelayedReplies wide (recv_world ''OK+RECV:1,2,4,deadbeef'')))
       = [(''1'', ''2'', ''4'', ''deadbeef'')]"
  by code_simp

subsection \<open>The record of a command error\<close>

text \<open>
  Claim C6 says that after \<^verbatim>\<open>+CME ERROR:1\<close> in an inquiry the operation fails with the
  command error and the last error has the sent command, the kind \<^verbatim>\<open>+CME ERROR\<close> and
  the integer 1 as code. The code raises \<^verbatim>\<open>ASRCMEError\<close> and stores the command and the
  kind, but the code it stores is the text \<^verbatim>\<open>1\<close>, not the integer; the branch for
  \<^verbatim>\<open>ERR+SEND:\<close> of the delayed-reply reader stores an integer.
\<close>

theorem cme_error_code_is_text:
  "fst (inquire ''CGMI'' 2 cme_world) = Inl ASRCMEError
   \<and> getLastATError (snd (inquire ''CGMI'' 2 cme_world))
       = Some [(''AtCmd'', PStr ''CGMI''), (''Type'', PStr ''+CME ERROR''),
               (''Num'', PStr ''1'')]
   \<and> lastErrorNum (snd (inquire ''CGMI'' 2 cme_world)) \<noteq> PInt 1
   \<and> lastErrorNum (snd (getDelayedReplies wide (idle\<lparr>inbuf := [''ERR+SEND:3'']\<rparr>))) = PInt 3"
  by code_simp

subsection \<open>Construction without a confirmed manufacturer\<close>

text \<open>An inquiry never returns \<^verbatim>\<open>None\<close> and never raises \<^verbatim>\<open>ASRSerialError\<close>.\<close>

lemma inquire_pass_result:
  "fst (inquire_pass start T r k d s) = Inl res \<Longrightarrow>
   res \<noteq> Inr PNone \<and> res \<noteq> Inl ASRSerialError \<and> res \<noteq> Inl ASRUnsupportedManuf"
  by (auto simp: inquire_pass_def Let_def decode_def inquire_value_def cme_error_def
           split: sum.splits if_splits option.splits list.splits)

lemma inquire_loop_result:
  "fst (inquire_loop start T r k d s) \<noteq> Inr PNone
   \<and> fst (inquire_loop start T r k d s) \<noteq> Inl ASRSerialError
   \<and> fst (inquire_loop start T r k d s) \<noteq> Inl ASRUnsupportedManuf"
proof (induction "nat (int start + T * int (hz s) + 1 - int (clock s))" arbitrary: r k d s
         rule: less_induct)
  case less
  obtain out s' where p: "inquire_pass start T r k d s = (out, s')"
    by (cases "inquire_pass start T r k d s")
  have fr: "clock s' = Suc (clock s)" "hz s' = hz s"
    using inquire_pass_frame[of start T r k d s] p by simp_all
  show ?case
  proof (cases out)
    case (Inl res)
    then show ?thesis
      using p inquire_pass_result[of start T r k d s res]
      by (simp add: inquire_loop_pass[of start T r k d s])
  next
    case (Inr x)
    obtain r' k' d' where x: "x = (r', k', d')" by (cases x) auto
    have "\<not> expired (clock s) start T s"
      using inquire_pass_continues[of start T r k d s x] p Inr by simp
    then have "nat (int start + T * int (hz s') + 1 - int (clock s'))
               < nat (int start + T * int (hz s) + 1 - int (clock s))"
      using fr by (simp add: expired_def)
    from less.hyps[OF this, of r' k' d'] show ?thesis
      using p Inr x by (simp add: inquire_loop_pass[of start T r k d s])
  qed
qed

lemma inquire_result:
  "fst (inquire cmd T s) \<noteq> Inr PNone \<and> fst (inquire cmd T s) \<noteq> Inl ASRSerialError"
  by (simp add: inquire_def Let_def inquire_loop_result)

lemma init_check_never_serial_error: "fst (init_check s) \<noteq> Inl ASRSerialError"
proof (cases "inquire ''CGMI'' 2 s")
  case (Pair a b)
  then show ?thesis
    using inquire_result[of "''CGMI''" 2 s]
    by (cases a) (simp_all add: init_check_def getManufId_def)
qed

text \<open>
  Claim C8 says that construction raises \<^verbatim>\<open>ASRSerialError\<close> when the manufacturer
  inquiry yields no reply, raises \<^verbatim>\<open>ASRUnsupportedManuf\<close> when the reply is not \<^verbatim>\<open>ASR\<close>,
  and returns no instance in either case. The code has the test for a missing reply,
  \<^verbatim>\<open>if reply is None: raise ASRSerialError\<close>, but the test is never true: on a silent
  channel the inquiry raises \<^verbatim>\<open>ASRReceiveTimeout\<close>, which is what construction ends
  with, wrapped in \<^verbatim>\<open>SystemExit\<close>; the identity check raises \<^verbatim>\<open>ASRSerialError\<close> on no
  channel at all. For a reply other than \<^verbatim>\<open>ASR\<close> the check raises
  \<^verbatim>\<open>ASRUnsupportedManuf\<close> and construction ends with it, wrapped in \<^verbatim>\<open>SystemExit\<close>.
\<close>

theorem init_silent_never_serial_error:
  "fst (init_check (init_fields idle)) = Inl ASRReceiveTimeout
   \<and> fst (init wide idle) = Inl (SystemExit ASRReceiveTimeout)
   \<and> fst (init_check s) \<noteq> Inl ASRSerialError
   \<and> fst (init_check (init_fields wrong_manuf_world)) = Inl ASRUnsupportedManuf
   \<and> fst (init wide wrong_manuf_world) = Inl (SystemExit ASRUnsupportedManuf)"
proof -
  have "fst (init_check (init_fields idle)) = Inl ASRReceiveTimeout" by code_simp
  moreover have "fst (init wide idle) = Inl (SystemExit ASRReceiveTimeout)" by code_simp
  moreover have "fst (init_check (init_fields wrong_manuf_world)) = Inl ASRUnsupportedManuf"
    by code_simp
  moreover have "fst (init wide wrong_manuf_world) = Inl (SystemExit ASRUnsupportedManuf)"
    by code_simp
  ultimately show ?thesis using init_check_never_serial_error[of s] by simp
qed

subsection \<open>Validation of keys\<close>

lemma hex_pairs_match_iff:
  "hex_pairs_match m key = (\<not> malformed (2 * m) key)"
proof
  assume h: "hex_pairs_match m key"
  then have l: "length (take (2 * m) key) = 2 * m"
    and a: "list_all is_upper_hex (take (2 * m) key)"
    and d: "drop (2 * m) key = [] \<or> drop (2 * m) key = [CHR 0x0A]"
    by (simp_all add: hex_pairs_match_def)
  from d show "\<not> malformed (2 * m) key"
  proof
    assume "drop (2 * m) key = []"
    then have "take (2 * m) key = key" by simp
    with l a show ?thesis by (simp add: malformed_def fixed_upper_hex_def)
  next
    assume e: "drop (2 * m) key = [CHR 0x0A]"
    have "key = take (2 * m) key @ [CHR 0x0A]"
      using append_take_drop_id[of "2 * m" key] e by simp
    then have "key \<noteq> []" "last key = CHR 0x0A" "butlast key = take (2 * m) key"
      by (metis snoc_eq_iff_butlast)+
    with l a show ?thesis by (simp add: malformed_def fixed_upper_hex_def)
  qed
next
  assume "\<not> malformed (2 * m) key"
  then consider "fixed_upper_hex (2 * m) key"
    | "key \<noteq> []" "last key = CHR 0x0A" "fixed_upper_hex (2 * m) (butlast key)"
    by (auto simp: malformed_def)
  then show "hex_pairs_match m key"
  proof cases
    case 1
    then show ?thesis by (simp add: hex_pairs_match_def fixed_upper_hex_def)
  next
    case 2
    then have k: "key = butlast key @ [CHR 0x0A]" by (metis append_butlast_last_id)
    from 2(3) have l: "length (butlast key) = 2 * m"
      and a: "list_all is_upper_hex (butlast key)"
      by (simp_all add: fixed_upper_hex_def)
    have "take (2 * m) key = butlast key" "drop (2 * m) key = [CHR 0x0A]"
      using l by (subst k, simp)+
    with l a show ?thesis by (simp add: hex_pairs_match_def)
  qed
qed

text \<open>\<^verbatim>\<open>setDevAddr\<close> validates with the 16-character pattern: eight hexadecimal
  characters are refused, sixteen are written to the channel.\<close>

lemma setDevAddr_takes_16_not_8:
  "fst (setDevAddr ''00BB9DA5'' idle) = Inl ASRInvalidDevAddr
   \<and> written (snd (setDevAddr ''00BB9DA500BB9DA5'' idle))
       = [''AT+CDEVADDR=00BB9DA500BB9DA5'' @ [CHR 0x0D, CHR 0x0A]]"
  by code_simp

text \<open>
  Claim C3 as stated fails: in ABP mode \<^verbatim>\<open>setDevEui\<close> answers a text that is no key
  with the assertion on the join mode, not with \<^verbatim>\<open>ASRInvalidDevEui\<close>.
\<close>

theorem setDevEui_wrong_mode_counterexample:
  "\<not> fixed_upper_hex 16 ''XYZ''
   \<and> fst (setDevEui ''XYZ'' (idle\<lparr>joinMode := ABP\<rparr>)) = Inl AssertionError
   \<and> fst (setDevEui ''XYZ'' (idle\<lparr>joinMode := ABP\<rparr>)) \<noteq> Inl ASRInvalidDevEui"
  by code_simp

text \<open>
  Claim C3, amended. A text that is neither an upper-case hexadecimal string of the
  required length (16 for DevEui and AppEui, 32 for AppKey, NwkSKey and AppSKey) nor such
  a string followed by one line feed is refused with nothing written, the instance and
  its channel being left as they were: by the setter's own validation error when the
  join mode is the one the setter asserts (OTAA for DevEui, AppEui and AppKey, ABP for
  AppSKey, none for NwkSKey), and by the assertion otherwise. \<^verbatim>\<open>setDevAddr\<close> refuses
  with \<^verbatim>\<open>ASRInvalidDevAddr\<close>, nothing written, every text that is malformed for 16
  characters and is not 8 upper-case hexadecimal characters either.
\<close>

theorem key_setters_reject_malformed:
  "(malformed 16 key \<longrightarrow>
      setDevEui key s
        = (Inl (if joinMode s = OTAA then ASRInvalidDevEui else AssertionError), s)
    \<and> setAppEui key s
        = (Inl (if joinMode s = OTAA then ASRInvalidAppEui else AssertionError), s)
    \<and> (\<not> fixed_upper_hex 8 key \<longrightarrow> setDevAddr key s = (Inl ASRInvalidDevAddr, s)))
   \<and> (malformed 32 key \<longrightarrow>
      setAppKey key s
        = (Inl (if joinMode s = OTAA then ASRInvalidAppKey else AssertionError), s)
    \<and> setNwkSKey key s = (Inl ASRInvalidNwkSKey, s)
    \<and> setAppSKey key s
        = (Inl (if joinMode s = ABP then ASRInvalidAppSKey else AssertionError), s))"
  using hex_pairs_match_iff[of 8 key] hex_pairs_match_iff[of 16 key]
  by (simp add: setDevEui_def setAppEui_def setDevAddr_def setAppKey_def setNwkSKey_def
        setAppSKey_def hex16char_def hex32char_def)

theorem key_setters_reject_malformed_witness:
  "malformed 16 ''00BB9DA5'' \<and> malformed 32 ''00BB9DA5''
   \<and> setDevEui ''00BB9DA5'' (idle\<lparr>joinMode := OTAA\<rparr>)
       = (Inl ASRInvalidDevEui, idle\<lparr>joinMode := OTAA\<rparr>)
   \<and> setNwkSKey ''00BB9DA5'' idle = (Inl ASRInvalidNwkSKey, idle)
   \<and> setAppSKey ''00BB9DA5'' (idle\<lparr>joinMode := ABP\<rparr>)
       = (Inl ASRInvalidAppSKey, idle\<lparr>joinMode := ABP\<rparr>)"
proof -
  have m: "malformed 16 ''00BB9DA5''" "malformed 32 ''00BB9DA5''" by code_simp+
  show ?thesis
    using m key_setters_reject_malformed[of "''00BB9DA5''" "idle\<lparr>joinMode := OTAA\<rparr>"]
      key_setters_reject_malformed[of "''00BB9DA5''" idle]
      key_setters_reject_malformed[of "''00BB9DA5''" "idle\<lparr>joinMode := ABP\<rparr>"]
    by (simp add: OTAA_def ABP_def)
qed

end
